theory Spec2Isabelle
  imports Main "HOL-Library.Sublist" "HOL-Library.Multiset"
begin

section \<open>Strings\<close>

text \<open>
  JavaScript strings are modelled as \<^typ>\<open>string\<close>; the catalogue's names and the
  search queries are ASCII, and \<open>toLowerCase\<close> and \<open>trim\<close> are given on ASCII.
\<close>

definition lower_char :: "char \<Rightarrow> char" where
  "lower_char c =
     (case map_of (zip ''ABCDEFGHIJKLMNOPQRSTUVWXYZ'' ''abcdefghijklmnopqrstuvwxyz'') c of
        Some l \<Rightarrow> l
      | None \<Rightarrow> c)"

definition toLowerCase :: "string \<Rightarrow> string" where
  "toLowerCase s = map lower_char s"

definition is_space :: "char \<Rightarrow> bool" where
  "is_space c = (c \<in> set [CHR 0x09, CHR 0x0A, CHR 0x0B, CHR 0x0C, CHR 0x0D, CHR '' ''])"

definition trim :: "string \<Rightarrow> string" where
  "trim s = rev (dropWhile is_space (rev (dropWhile is_space s)))"

fun is_prefix :: "string \<Rightarrow> string \<Rightarrow> bool" where
  "is_prefix [] ys = True"
| "is_prefix (x # xs) [] = False"
| "is_prefix (x # xs) (y # ys) = (x = y \<and> is_prefix xs ys)"

text \<open>\<open>s.includes(t)\<close>: \<open>t\<close> occurs in \<open>s\<close> as a contiguous substring.\<close>

fun includes_str :: "string \<Rightarrow> string \<Rightarrow> bool" where
  "includes_str [] t = (t = [])"
| "includes_str (c # s) t = (is_prefix t (c # s) \<or> includes_str s t)"

definition digit_char :: "nat \<Rightarrow> char" where
  "digit_char d = ''0123456789'' ! d"

function string_of_nat :: "nat \<Rightarrow> string" where
  "string_of_nat n =
     (if n < 10 then [digit_char n] else string_of_nat (n div 10) @ [digit_char (n mod 10)])"
  by pat_completeness auto
termination
  by (relation "measure (\<lambda>n. n)") auto

declare string_of_nat.simps [simp del]

text \<open>
  The argument of \<open>fetchPokemon\<close> is documented as \<open>string|number\<close>; \<open>String(x)\<close>
  is the identity on a string and the decimal numeral of an integral number.
\<close>

datatype id_or_name = Str string | Num int

fun String :: "id_or_name \<Rightarrow> string" where
  "String (Str s) = s"
| "String (Num n) = (if n < 0 then CHR ''-'' # string_of_nat (nat (- n)) else string_of_nat (nat n))"

section \<open>Constants\<close>

definition POKEAPI_URL :: string where
  "POKEAPI_URL = ''https://pokeapi.co/api/v2/pokemon/''"

definition TOTAL_POKEMON :: nat where
  "TOTAL_POKEMON = 151"

definition list_url :: string where
  "list_url = POKEAPI_URL @ ''?limit='' @ string_of_nat TOTAL_POKEMON @ ''&offset=0''"

definition type_url :: "string \<Rightarrow> string" where
  "type_url ty = ''https://pokeapi.co/api/v2/type/'' @ ty"

section \<open>The remote catalogue\<close>

text \<open>
  The three shapes of \<open>response.data\<close> the script reads: the record of one
  Pokemon (\<open>id\<close>, \<open>name\<close>, \<open>sprites.front_default\<close>, \<open>types[].type.name\<close>,
  \<open>stats[]\<close> as pairs of \<open>stat.name\<close> and \<open>base_stat\<close>), the paged listing
  (\<open>results[].name\<close>) and the membership of a type (\<open>pokemon[].pokemon.name\<close>).
\<close>

record payload =
  data_id :: int
  data_name :: string
  data_sprites :: string
  data_types :: "string list"
  data_stats :: "(string \<times> int) list"

datatype response_data =
    PokemonData payload
  | ListData "string list"
  | TypeData "string list"

text \<open>
  What a \<open>catch\<close> block can receive: an Axios error carrying a response with its
  status, an Axios error carrying only the request, an Axios error carrying neither,
  and the \<open>TypeError\<close> of a property read on \<open>undefined\<close>.
\<close>

datatype js_error = ResponseError nat | RequestError | SetupError | TypeError

text \<open>
  The catalogue is a black box: the answer to a request depends on the number of
  requests issued before it and on its URL.
\<close>

type_synonym remote = "nat \<Rightarrow> string \<Rightarrow> js_error + response_data"

section \<open>The Pokemon class\<close>

record pokemon =
  poke_id :: int
  poke_name :: string
  sprites :: string
  types :: "string list"
  stats :: "(string \<times> int) list"
  hp :: int

text \<open>
  The constructor reads \<open>data.stats.find(stat => stat.stat.name === 'hp').base_stat\<close>:
  without such a stat \<open>find\<close> yields \<open>undefined\<close> and the property read throws. A
  response of another shape has no \<open>stats\<close> and throws likewise.
\<close>

fun Pokemon_constructor :: "response_data \<Rightarrow> js_error + pokemon" where
  "Pokemon_constructor (PokemonData d) =
     (case find (\<lambda>st. fst st = ''hp'') (data_stats d) of
        None \<Rightarrow> Inl TypeError
      | Some st \<Rightarrow>
          Inr \<lparr>poke_id = data_id d, poke_name = data_name d, sprites = data_sprites d,
               types = data_types d, stats = data_stats d, hp = snd st\<rparr>)"
| "Pokemon_constructor (ListData ns) = Inl TypeError"
| "Pokemon_constructor (TypeData ns) = Inl TypeError"

record card =
  card_name :: string
  card_img :: string
  card_types :: string
  card_hp :: int

fun join_comma :: "string list \<Rightarrow> string" where
  "join_comma [] = []"
| "join_comma [x] = x"
| "join_comma (x # y # ys) = x @ '', '' @ join_comma (y # ys)"

definition renderCard :: "pokemon \<Rightarrow> card" where
  "renderCard p =
     \<lparr>card_name = poke_name p, card_img = sprites p,
      card_types = join_comma (types p), card_hp = hp p\<rparr>"

section \<open>Values and the cache object\<close>

text \<open>
  The values that reach the script's variables: \<open>undefined\<close>, \<open>null\<close>, an instance
  of \<open>Pokemon\<close> (its identity and its fields, which are never assigned after
  construction) and a member of \<open>Object.prototype\<close>.
\<close>

datatype jsval = Undefined | Null | Inst nat pokemon | Builtin string

fun truthy :: "jsval \<Rightarrow> bool" where
  "truthy Undefined = False"
| "truthy Null = False"
| "truthy (Inst i p) = True"
| "truthy (Builtin k) = True"

fun instanceof_Pokemon :: "jsval \<Rightarrow> bool" where
  "instanceof_Pokemon (Inst i p) = True"
| "instanceof_Pokemon v = False"

text \<open>
  \<open>pokemonCache\<close> is the object literal \<open>{}\<close>: reading \<open>pokemonCache[key]\<close> finds
  an own property first and then the properties inherited from \<open>Object.prototype\<close>.
\<close>

definition Object_prototype_names :: "string list" where
  "Object_prototype_names =
     [''constructor'', ''__defineGetter__'', ''__defineSetter__'', ''hasOwnProperty'',
      ''__lookupGetter__'', ''__lookupSetter__'', ''isPrototypeOf'',
      ''propertyIsEnumerable'', ''toString'', ''valueOf'', ''__proto__'',
      ''toLocaleString'']"

type_synonym cache = "string \<rightharpoonup> nat \<times> pokemon"

definition cache_get :: "cache \<Rightarrow> string \<Rightarrow> jsval" where
  "cache_get c key =
     (case c key of
        Some (i, p) \<Rightarrow> Inst i p
      | None \<Rightarrow> if key \<in> set Object_prototype_names then Builtin key else Undefined)"

section \<open>State\<close>

datatype display = DisplayNone | DisplayFlex

datatype log_entry = Warn string | Err string

datatype node = Card card | SuggestionCard card pokemon | Paragraph string

text \<open>
  The mutable state of the page: the cache, the allocation counter of \<open>Pokemon\<close>
  instances, the URLs passed to \<open>axios.get\<close> so far, the console, the value of the
  search input, and the content and \<open>style.display\<close> of the two containers. A
  suggestion card keeps the \<open>Pokemon\<close> its click listener closes over.
\<close>

record state =
  pokemonCache :: cache
  next_oid :: nat
  requests :: "string list"
  console :: "log_entry list"
  searchInput_value :: string
  pokemonContainer_innerHTML :: "node list"
  pokemonContainer_display :: display
  suggestionsContainer_innerHTML :: "node list"
  suggestionsContainer_display :: display

text \<open>The state once the \<open>DOMContentLoaded\<close> listener has run.\<close>

definition initial_state :: state where
  "initial_state =
     \<lparr>pokemonCache = Map.empty, next_oid = 0, requests = [], console = [],
      searchInput_value = [], pokemonContainer_innerHTML = [],
      pokemonContainer_display = DisplayNone, suggestionsContainer_innerHTML = [],
      suggestionsContainer_display = DisplayNone\<rparr>"

section \<open>fetchPokemon\<close>

text \<open>
  An \<open>async\<close> function runs up to its first \<open>await\<close> when it is called and resumes
  when the awaited promise settles. \<open>fetchPokemon_start\<close> is the first part: the
  key, the cache check and the call of \<open>axios.get\<close>; a pending task carries its key
  and the number of its request.
\<close>

datatype task = Done jsval | Pending string nat

definition fetchPokemon_start :: "id_or_name \<Rightarrow> state \<Rightarrow> task \<times> state" where
  "fetchPokemon_start idOrName s =
     (let key = toLowerCase (String idOrName) in
      if truthy (cache_get (pokemonCache s) key) then (Done (cache_get (pokemonCache s) key), s)
      else (Pending key (length (requests s)),
            s\<lparr>requests := requests s @ [POKEAPI_URL @ key]\<rparr>))"

text \<open>
  The rest of the \<open>try\<close> block, run on the outcome of the request: \<open>await\<close>
  throws the error of a rejected request, and \<open>new Pokemon(data)\<close> throws on a
  payload without the stat \<open>hp\<close>.
\<close>

definition constructed :: "js_error + response_data \<Rightarrow> js_error + pokemon" where
  "constructed resp = (case resp of Inl e \<Rightarrow> Inl e | Inr d \<Rightarrow> Pokemon_constructor d)"

definition fetchPokemon_try ::
  "string \<Rightarrow> js_error + response_data \<Rightarrow> state \<Rightarrow> (js_error + jsval) \<times> state" where
  "fetchPokemon_try key resp s =
     (case constructed resp of
        Inl e \<Rightarrow> (Inl e, s)
      | Inr p \<Rightarrow>
          (Inr (Inst (next_oid s) p),
           s\<lparr>pokemonCache := (pokemonCache s)(key \<mapsto> (next_oid s, p)),
             next_oid := Suc (next_oid s)\<rparr>))"

text \<open>The \<open>catch\<close> block: one console line by kind of error, then \<open>return null\<close>.\<close>

fun fetchPokemon_catch :: "string \<Rightarrow> js_error \<Rightarrow> state \<Rightarrow> state" where
  "fetchPokemon_catch key (ResponseError st) s =
     (if st = 404 then s\<lparr>console := console s @ [Warn (''not found: '' @ key)]\<rparr>
      else s\<lparr>console := console s @ [Err (''Error fetching Pokemon '' @ key)]\<rparr>)"
| "fetchPokemon_catch key RequestError s =
     s\<lparr>console := console s @ [Err ''No response received from PokeAPI'']\<rparr>"
| "fetchPokemon_catch key e s =
     s\<lparr>console := console s @ [Err ''Error setting up Axios request'']\<rparr>"

text \<open>
  The promise of \<open>fetchPokemon\<close> settles with \<open>Inr v\<close> when the function returns
  \<open>v\<close> and with \<open>Inl e\<close> when \<open>e\<close> escapes it.
\<close>

definition fetchPokemon_resume ::
  "string \<Rightarrow> js_error + response_data \<Rightarrow> state \<Rightarrow> (js_error + jsval) \<times> state" where
  "fetchPokemon_resume key resp s =
     (case fetchPokemon_try key resp s of
        (Inr v, s') \<Rightarrow> (Inr v, s')
      | (Inl e, s') \<Rightarrow> (Inr Null, fetchPokemon_catch key e s'))"

text \<open>A call of \<open>fetchPokemon\<close> awaited on its own.\<close>

definition fetchPokemon :: "remote \<Rightarrow> id_or_name \<Rightarrow> state \<Rightarrow> (js_error + jsval) \<times> state" where
  "fetchPokemon remote idOrName s =
     (case fetchPokemon_start idOrName s of
        (Done v, s') \<Rightarrow> (Inr v, s')
      | (Pending key n, s') \<Rightarrow> fetchPokemon_resume key (remote n (POKEAPI_URL @ key)) s')"

section \<open>Promise.all over the detail requests\<close>

text \<open>
  \<open>names.map(name => fetchPokemon(name))\<close> runs the first part of every call, one
  after the other, before any response is handled.
\<close>

fun launch :: "string list \<Rightarrow> state \<Rightarrow> task list \<times> state" where
  "launch [] s = ([], s)"
| "launch (name # names) s =
     (let (t, s1) = fetchPokemon_start (Str name) s;
          (ts, s2) = launch names s1
      in (t # ts, s2))"

text \<open>
  \<open>Promise.all\<close> keeps the array of values and the count of elements still
  awaited. A fulfilled element stores its value and decrements the count, and the
  promise is fulfilled with the array when the count reaches zero; a rejected element
  rejects the promise at once. A promise that has settled does not settle again.
\<close>

record all_state =
  all_values :: "jsval list"
  all_remaining :: nat
  all_outcome :: "(js_error + jsval list) option"

definition Promise_all_init :: "nat \<Rightarrow> all_state" where
  "Promise_all_init n =
     \<lparr>all_values = replicate n Undefined, all_remaining = n,
      all_outcome = (if n = 0 then Some (Inr []) else None)\<rparr>"

definition Promise_all_notify :: "nat \<Rightarrow> js_error + jsval \<Rightarrow> all_state \<Rightarrow> all_state" where
  "Promise_all_notify i r j =
     (case r of
        Inl e \<Rightarrow> (if all_outcome j = None then j\<lparr>all_outcome := Some (Inl e)\<rparr> else j)
      | Inr v \<Rightarrow>
          (let vs = (all_values j)[i := v]; m = all_remaining j - 1
           in j\<lparr>all_values := vs, all_remaining := m,
                all_outcome :=
                  (if m = 0 \<and> all_outcome j = None then Some (Inr vs) else all_outcome j)\<rparr>))"

text \<open>
  The order in which the pending requests are answered is the network's choice:
  each number of the schedule picks one of the requests still pending.
\<close>

function reorder :: "nat list \<Rightarrow> 'a list \<Rightarrow> 'a list" where
  "reorder cs [] = []"
| "reorder [] (x # xs) = x # xs"
| "reorder (c # cs) (x # xs) =
     (let i = c mod length (x # xs)
      in (x # xs) ! i # reorder cs (take i (x # xs) @ drop (Suc i) (x # xs)))"
  by pat_completeness auto
termination
  by (relation "measure (\<lambda>(cs, xs). length xs)") auto

fun is_done :: "task \<Rightarrow> bool" where
  "is_done (Done v) = True"
| "is_done (Pending key n) = False"

fun settle :: "remote \<Rightarrow> task \<Rightarrow> state \<Rightarrow> (js_error + jsval) \<times> state" where
  "settle remote (Done v) s = (Inr v, s)"
| "settle remote (Pending key n) s = fetchPokemon_resume key (remote n (POKEAPI_URL @ key)) s"

datatype event = ItemSettled nat | BatchCompleted

text \<open>
  The promises settle one at a time. After each one \<open>Promise.all\<close> is notified, and
  the code behind \<open>await Promise.all(...)\<close> (the parameter \<open>k\<close>) runs as soon as
  the joint promise has an outcome; the requests still pending are answered later.
\<close>

fun settle_loop ::
  "remote \<Rightarrow> (js_error + jsval list \<Rightarrow> state \<Rightarrow> state) \<Rightarrow> (nat \<times> task) list \<Rightarrow>
   all_state \<Rightarrow> state \<Rightarrow> event list \<Rightarrow> all_state \<times> state \<times> event list" where
  "settle_loop remote k [] j s tr = (j, s, tr)"
| "settle_loop remote k ((i, t) # ps) j s tr =
     (let (r, s1) = settle remote t s;
          j1 = Promise_all_notify i r j
      in if all_outcome j = None \<and> all_outcome j1 \<noteq> None
         then settle_loop remote k ps j1 (k (the (all_outcome j1)) s1)
                (tr @ [ItemSettled i, BatchCompleted])
         else settle_loop remote k ps j1 s1 (tr @ [ItemSettled i]))"

text \<open>
  The promises of the cache hits are fulfilled when \<open>Promise.all\<close> receives them,
  so they are handled first, in the order of the array.
\<close>

definition arrival_order :: "nat list \<Rightarrow> task list \<Rightarrow> (nat \<times> task) list" where
  "arrival_order sched ts =
     (let its = zip [0..<length ts] ts
      in filter (\<lambda>it. is_done (snd it)) its @ reorder sched (filter (\<lambda>it. \<not> is_done (snd it)) its))"

definition Promise_all_fetchPokemon ::
  "remote \<Rightarrow> nat list \<Rightarrow> (js_error + jsval list \<Rightarrow> state \<Rightarrow> state) \<Rightarrow> string list \<Rightarrow>
   state \<Rightarrow> all_state \<times> state \<times> event list" where
  "Promise_all_fetchPokemon remote sched k names s =
     (let (ts, s1) = launch names s;
          j0 = Promise_all_init (length ts)
      in if all_outcome j0 \<noteq> None then (j0, k (the (all_outcome j0)) s1, [BatchCompleted])
         else settle_loop remote k (arrival_order sched ts) j0 s1 [])"

section \<open>Display\<close>

text \<open>
  The \<open>forEach\<close> loops call \<open>pokemon.renderCard()\<close> on every element; on a value
  that is not a \<open>Pokemon\<close> the call throws, and the fragment is not appended.
\<close>

fun render_cards :: "(card \<Rightarrow> pokemon \<Rightarrow> node) \<Rightarrow> jsval list \<Rightarrow> js_error + node list" where
  "render_cards mk [] = Inr []"
| "render_cards mk (Inst i p # vs) =
     (case render_cards mk vs of Inl e \<Rightarrow> Inl e | Inr cs \<Rightarrow> Inr (mk (renderCard p) p # cs))"
| "render_cards mk (v # vs) = Inl TypeError"

definition displaySuggestions :: "jsval list \<Rightarrow> state \<Rightarrow> js_error option \<times> state" where
  "displaySuggestions suggestions s =
     (let s1 = s\<lparr>suggestionsContainer_innerHTML := []\<rparr> in
      if length suggestions = 0 then (None, s1\<lparr>suggestionsContainer_display := DisplayNone\<rparr>)
      else
        (let s2 = s1\<lparr>suggestionsContainer_display := DisplayFlex\<rparr> in
         case render_cards SuggestionCard suggestions of
           Inl e \<Rightarrow> (Some e, s2)
         | Inr cs \<Rightarrow>
             (None, s2\<lparr>suggestionsContainer_innerHTML := suggestionsContainer_innerHTML s2 @ cs,
                       pokemonContainer_display := DisplayNone\<rparr>)))"

text \<open>The page has the element \<open>pokemon-container\<close>, so the guard of \<open>displayPokemon\<close> is passed.\<close>

definition displayPokemon :: "jsval list \<Rightarrow> state \<Rightarrow> js_error option \<times> state" where
  "displayPokemon list s =
     (let s1 = s\<lparr>pokemonContainer_innerHTML := []\<rparr> in
      case render_cards (\<lambda>c p. Card c) list of
        Inl e \<Rightarrow> (Some e, s1)
      | Inr cs \<Rightarrow>
          (None, s1\<lparr>pokemonContainer_innerHTML := pokemonContainer_innerHTML s1 @ cs,
                    pokemonContainer_display := DisplayFlex,
                    suggestionsContainer_display := DisplayNone\<rparr>))"

section \<open>fetchSuggestions\<close>

fun results_of :: "response_data \<Rightarrow> js_error + string list" where
  "results_of (ListData names) = Inr names"
| "results_of d = Inl TypeError"

definition fetchSuggestions_catch :: "js_error \<Rightarrow> state \<Rightarrow> state" where
  "fetchSuggestions_catch e s =
     s\<lparr>console := console s @ [Err ''Error fetching suggestions''],
       suggestionsContainer_innerHTML := [Paragraph ''Error loading suggestions.''],
       suggestionsContainer_display := DisplayFlex\<rparr>"

text \<open>The \<open>try\<close> block from the end of \<open>await Promise.all(...)\<close>, under its \<open>catch\<close>.\<close>

definition fetchSuggestions_then :: "js_error + jsval list \<Rightarrow> state \<Rightarrow> state" where
  "fetchSuggestions_then r s =
     (case r of
        Inl e \<Rightarrow> fetchSuggestions_catch e s
      | Inr detailedSuggestions \<Rightarrow>
          (case displaySuggestions (filter instanceof_Pokemon detailedSuggestions) s of
             (None, s') \<Rightarrow> s'
           | (Some e, s') \<Rightarrow> fetchSuggestions_catch e s'))"

definition matchingNames :: "string \<Rightarrow> string list \<Rightarrow> string list" where
  "matchingNames query results =
     filter (\<lambda>name. includes_str (toLowerCase name) (toLowerCase query)) results"

definition fetchSuggestions ::
  "remote \<Rightarrow> nat list \<Rightarrow> string \<Rightarrow> state \<Rightarrow> all_state option \<times> state \<times> event list" where
  "fetchSuggestions remote sched query s =
     (if query = [] then
        (None, s\<lparr>suggestionsContainer_innerHTML := [],
                  suggestionsContainer_display := DisplayNone\<rparr>, [])
      else
        (let s1 = s\<lparr>requests := requests s @ [list_url]\<rparr> in
         case remote (length (requests s)) list_url of
           Inl e \<Rightarrow> (None, fetchSuggestions_catch e s1, [])
         | Inr d \<Rightarrow>
             (case results_of d of
                Inl e \<Rightarrow> (None, fetchSuggestions_catch e s1, [])
              | Inr results \<Rightarrow>
                  (case Promise_all_fetchPokemon remote sched fetchSuggestions_then
                          (matchingNames query results) s1 of
                     (j, s2, tr) \<Rightarrow> (Some j, s2, tr)))))"

section \<open>searchPokemons and resetSearch\<close>

definition prompt_message :: string where
  "prompt_message = ''Please type a Pokemon name or ID to search.''"

definition not_found_message :: string where
  "not_found_message = ''Pokemon not found!''"

text \<open>
  \<open>searchPokemons\<close> up to \<open>await fetchPokemon(searchQuery)\<close>: the empty query is
  answered at once, any other starts the resolution.
\<close>

definition searchPokemons_start :: "string \<Rightarrow> state \<Rightarrow> task option \<times> state" where
  "searchPokemons_start searchQuery s =
     (if searchQuery = [] then
        (None, s\<lparr>pokemonContainer_innerHTML := [Paragraph prompt_message],
                  pokemonContainer_display := DisplayFlex,
                  suggestionsContainer_innerHTML := [],
                  suggestionsContainer_display := DisplayNone\<rparr>)
      else (case fetchPokemon_start (Str searchQuery) s of (t, s1) \<Rightarrow> (Some t, s1)))"

text \<open>
  The rest of \<open>searchPokemons\<close>; the first component is the error with which its
  promise is rejected, if any.
\<close>

definition searchPokemons_finish :: "remote \<Rightarrow> task \<Rightarrow> state \<Rightarrow> js_error option \<times> state" where
  "searchPokemons_finish remote t s =
     (case settle remote t s of
        (Inl e, s1) \<Rightarrow> (Some e, s1)
      | (Inr pokemon, s1) \<Rightarrow>
          (case (if truthy pokemon then displayPokemon [pokemon] s1
                 else (None, s1\<lparr>pokemonContainer_innerHTML := [Paragraph not_found_message],
                                 pokemonContainer_display := DisplayFlex\<rparr>)) of
             (Some e, s2) \<Rightarrow> (Some e, s2)
           | (None, s2) \<Rightarrow>
               (None, s2\<lparr>suggestionsContainer_innerHTML := [],
                         suggestionsContainer_display := DisplayNone\<rparr>)))"

definition searchPokemons :: "remote \<Rightarrow> string \<Rightarrow> state \<Rightarrow> js_error option \<times> state" where
  "searchPokemons remote searchQuery s =
     (case searchPokemons_start searchQuery s of
        (None, s1) \<Rightarrow> (None, s1)
      | (Some t, s1) \<Rightarrow> searchPokemons_finish remote t s1)"

definition resetSearch :: "state \<Rightarrow> state" where
  "resetSearch s =
     s\<lparr>searchInput_value := [], pokemonContainer_innerHTML := [],
       pokemonContainer_display := DisplayNone, suggestionsContainer_innerHTML := [],
       suggestionsContainer_display := DisplayNone\<rparr>"

section \<open>The click listener of a type filter\<close>

fun members_of :: "response_data \<Rightarrow> js_error + string list" where
  "members_of (TypeData names) = Inr names"
| "members_of d = Inl TypeError"

text \<open>\<open>xs.filter((x, index) => P(x, index))\<close>\<close>

definition filter_index :: "('a \<Rightarrow> nat \<Rightarrow> bool) \<Rightarrow> 'a list \<Rightarrow> 'a list" where
  "filter_index P xs = map fst (filter (\<lambda>(x, i). P x i) (zip xs [0..<length xs]))"

definition pokemonNamesForType :: "string list \<Rightarrow> string list" where
  "pokemonNamesForType members = filter_index (\<lambda>name index. index < TOTAL_POKEMON) members"

definition no_results_message :: "string \<Rightarrow> string" where
  "no_results_message ty = ''No Pokemon found for type: '' @ ty @ ''.''"

definition type_error_message :: string where
  "type_error_message = ''Error loading Pokemon for this type.''"

fun filter_click_catch :: "string \<Rightarrow> js_error \<Rightarrow> state \<Rightarrow> state" where
  "filter_click_catch ty (ResponseError st) s =
     s\<lparr>console := console s @ [Err (''Error fetching Pokemon for type '' @ ty)],
       pokemonContainer_innerHTML := [Paragraph type_error_message],
       pokemonContainer_display := DisplayFlex\<rparr>"
| "filter_click_catch ty RequestError s =
     s\<lparr>console := console s @ [Err ''No response received for type fetch''],
       pokemonContainer_innerHTML := [Paragraph type_error_message],
       pokemonContainer_display := DisplayFlex\<rparr>"
| "filter_click_catch ty e s =
     s\<lparr>console := console s @ [Err ''Error setting up Axios request for type fetch''],
       pokemonContainer_innerHTML := [Paragraph type_error_message],
       pokemonContainer_display := DisplayFlex\<rparr>"

definition filter_click_then :: "string \<Rightarrow> js_error + jsval list \<Rightarrow> state \<Rightarrow> state" where
  "filter_click_then ty r s =
     (case r of
        Inl e \<Rightarrow> filter_click_catch ty e s
      | Inr detailedPokemons \<Rightarrow>
          (let filteredPokemons = filter instanceof_Pokemon detailedPokemons in
           if length filteredPokemons > 0 then
             (case displayPokemon filteredPokemons s of
                (None, s') \<Rightarrow> s'
              | (Some e, s') \<Rightarrow> filter_click_catch ty e s')
           else s\<lparr>pokemonContainer_innerHTML := [Paragraph (no_results_message ty)],
                  pokemonContainer_display := DisplayFlex\<rparr>))"

definition filter_click ::
  "remote \<Rightarrow> nat list \<Rightarrow> string \<Rightarrow> state \<Rightarrow> all_state option \<times> state \<times> event list" where
  "filter_click remote sched ty s =
     (let s0 = s\<lparr>searchInput_value := [], suggestionsContainer_innerHTML := [],
                 suggestionsContainer_display := DisplayNone\<rparr>;
          s1 = s0\<lparr>requests := requests s0 @ [type_url ty]\<rparr>
      in case remote (length (requests s0)) (type_url ty) of
           Inl e \<Rightarrow> (None, filter_click_catch ty e s1, [])
         | Inr d \<Rightarrow>
             (case members_of d of
                Inl e \<Rightarrow> (None, filter_click_catch ty e s1, [])
              | Inr members \<Rightarrow>
                  (case Promise_all_fetchPokemon remote sched (filter_click_then ty)
                          (pokemonNamesForType members) s1 of
                     (j, s2, tr) \<Rightarrow> (Some j, s2, tr))))"

section \<open>User actions\<close>

text \<open>
  The listeners: typing into the search input, the search button (or Enter), the
  refresh button, a type filter, and a suggestion card. Each action is run to the
  end before the next one begins.
\<close>

datatype action =
    Input string "nat list"
  | Search
  | Refresh
  | FilterClick string "nat list"
  | SuggestionClick nat

fun step :: "remote \<Rightarrow> action \<Rightarrow> state \<Rightarrow> state" where
  "step remote (Input v sched) s =
     fst (snd (fetchSuggestions remote sched (trim v) (s\<lparr>searchInput_value := v\<rparr>)))"
| "step remote Search s = snd (searchPokemons remote (toLowerCase (trim (searchInput_value s))) s)"
| "step remote Refresh s = resetSearch s"
| "step remote (FilterClick ty sched) s = fst (snd (filter_click remote sched ty s))"
| "step remote (SuggestionClick i) s =
     (if i < length (suggestionsContainer_innerHTML s) then
        (case suggestionsContainer_innerHTML s ! i of
           SuggestionCard c p \<Rightarrow>
             (case searchPokemons_start (poke_name p) (s\<lparr>searchInput_value := poke_name p\<rparr>) of
                (ot, s1) \<Rightarrow>
                  (let s2 = s1\<lparr>suggestionsContainer_innerHTML := [],
                               suggestionsContainer_display := DisplayNone\<rparr>
                   in case ot of
                        None \<Rightarrow> s2
                      | Some t \<Rightarrow> snd (searchPokemons_finish remote t s2)))
         | _ \<Rightarrow> s)
      else s)"

fun run :: "remote \<Rightarrow> action list \<Rightarrow> state \<Rightarrow> state" where
  "run remote [] s = s"
| "run remote (a # as) s = run remote as (step remote a s)"

section \<open>Example catalogues\<close>

definition pikachu_data :: payload where
  "pikachu_data =
     \<lparr>data_id = 25, data_name = ''pikachu'', data_sprites = ''sprites/pokemon/25.png'',
      data_types = [''electric''],
      data_stats = [(''hp'', 35), (''attack'', 55), (''defense'', 40)]\<rparr>"

definition pikachu :: pokemon where
  "pikachu =
     \<lparr>poke_id = 25, poke_name = ''pikachu'', sprites = ''sprites/pokemon/25.png'',
      types = [''electric''],
      stats = [(''hp'', 35), (''attack'', 55), (''defense'', 40)], hp = 35\<rparr>"

text \<open>
  A catalogue that knows Pikachu under its name and its number, lists three names, and
  answers 404 to everything else.
\<close>

definition demo_remote :: remote where
  "demo_remote n u =
     (if u = POKEAPI_URL @ ''pikachu'' \<or> u = POKEAPI_URL @ ''25''
      then Inr (PokemonData pikachu_data)
      else if u = list_url then Inr (ListData [''bulbasaur'', ''pikachu'', ''raichu''])
      else Inl (ResponseError 404))"

text \<open>The same catalogue while its listing does not answer.\<close>

definition listing_down_remote :: remote where
  "listing_down_remote n u = (if u = list_url then Inl RequestError else demo_remote n u)"

text \<open>A type whose membership list has 200 names, served next to the catalogue above.\<close>

definition long_membership :: "string list" where
  "long_membership = ''pikachu'' # ''raichu'' # replicate 198 ''voltorb''"

definition type_remote :: remote where
  "type_remote n u =
     (if u = type_url ''electric'' then Inr (TypeData long_membership) else demo_remote n u)"

section \<open>At most one container visible\<close>

definition exclusive :: "state \<Rightarrow> bool" where
  "exclusive s \<longleftrightarrow>
     \<not> (pokemonContainer_display s = DisplayFlex \<and> suggestionsContainer_display s = DisplayFlex)"

text \<open>The listing of the catalogue answers every request with a list of names.\<close>

definition listing_answers :: "remote \<Rightarrow> bool" where
  "listing_answers remote \<longleftrightarrow> (\<forall>n. \<exists>names. remote n list_url = Inr (ListData names))"

section \<open>The batch of the specification\<close>

fun entity_of :: "jsval \<Rightarrow> pokemon option" where
  "entity_of (Inst i p) = Some p"
| "entity_of v = None"

fun somes :: "'a option list \<Rightarrow> 'a list" where
  "somes [] = []"
| "somes (None # xs) = somes xs"
| "somes (Some x # xs) = x # somes xs"

text \<open>
  The resolution of one name as the specification describes it: against the cache as
  it is when the batch starts, and otherwise against the answer to request number
  \<open>n\<close>; the second component tells whether a request is issued.
\<close>

definition spec_resolve :: "remote \<Rightarrow> cache \<Rightarrow> nat \<Rightarrow> string \<Rightarrow> pokemon option \<times> bool" where
  "spec_resolve remote c n name =
     (let key = toLowerCase name in
      if truthy (cache_get c key) then (entity_of (cache_get c key), False)
      else (case constructed (remote n (POKEAPI_URL @ key)) of
              Inl e \<Rightarrow> (None, True)
            | Inr p \<Rightarrow> (Some p, True)))"

text \<open>
  The batch of the specification: a sequence of names in, the fulfilled resolutions
  out, in the order of the names, the failed ones left out.
\<close>

fun spec_batch_resolve :: "remote \<Rightarrow> cache \<Rightarrow> nat \<Rightarrow> string list \<Rightarrow> pokemon option list" where
  "spec_batch_resolve remote c n [] = []"
| "spec_batch_resolve remote c n (name # names) =
     (case spec_resolve remote c n name of
        (r, issued) \<Rightarrow> r # spec_batch_resolve remote c (if issued then Suc n else n) names)"

definition spec_batch_requests :: "cache \<Rightarrow> string list \<Rightarrow> string list" where
  "spec_batch_requests c names =
     map (\<lambda>name. POKEAPI_URL @ toLowerCase name)
       (filter (\<lambda>name. \<not> truthy (cache_get c (toLowerCase name))) names)"

text \<open>What the promise of a task is fulfilled with, as an entity.\<close>

fun task_entity :: "remote \<Rightarrow> task \<Rightarrow> pokemon option" where
  "task_entity remote (Done v) = entity_of v"
| "task_entity remote (Pending key n) =
     (case constructed (remote n (POKEAPI_URL @ key)) of Inl e \<Rightarrow> None | Inr p \<Rightarrow> Some p)"

text \<open>The values and the state the settling of a list of tasks leaves, while none is rejected.\<close>

fun settle_all :: "remote \<Rightarrow> (nat \<times> task) list \<Rightarrow> jsval list \<Rightarrow> state \<Rightarrow> jsval list \<times> state" where
  "settle_all remote [] vs s = (vs, s)"
| "settle_all remote ((i, t) # ps) vs s =
     (case settle remote t s of
        (Inr v, s1) \<Rightarrow> settle_all remote ps (vs[i := v]) s1
      | (Inl e, s1) \<Rightarrow> (vs, s1))"

text \<open>
  A batch over \<open>n\<close> items has waited for all of them: its trace holds the settling
  of every item once, in some order, and then the completion, and the joint promise
  is fulfilled with one value per item.
\<close>

definition joined_after_all :: "nat \<Rightarrow> all_state \<Rightarrow> event list \<Rightarrow> bool" where
  "joined_after_all n j tr \<longleftrightarrow>
     tr \<noteq> [] \<and> last tr = BatchCompleted \<and>
     mset (butlast tr) = mset (map ItemSettled [0..<n]) \<and>
     all_outcome j = Some (Inr (all_values j)) \<and> length (all_values j) = n"

section \<open>Evaluation of the constants\<close>

lemma string_of_nat_151: "string_of_nat 151 = ''151''"
  by (simp add: string_of_nat.simps digit_char_def)

lemma list_url_eq: "list_url = ''https://pokeapi.co/api/v2/pokemon/?limit=151&offset=0''"
  by (simp add: list_url_def POKEAPI_URL_def TOTAL_POKEMON_def string_of_nat_151)

lemma constructed_pikachu: "constructed (Inr (PokemonData pikachu_data)) = Inr pikachu"
  by (simp add: constructed_def pikachu_data_def pikachu_def)

section \<open>Properties of fetchPokemon\<close>

lemma fetchPokemon_miss:
  assumes "\<not> truthy (cache_get (pokemonCache s) (toLowerCase (String K)))"
  shows "fetchPokemon remote K s =
           fetchPokemon_resume (toLowerCase (String K))
             (remote (length (requests s)) (POKEAPI_URL @ toLowerCase (String K)))
             (s\<lparr>requests := requests s @ [POKEAPI_URL @ toLowerCase (String K)]\<rparr>)"
  using assms by (simp add: fetchPokemon_def fetchPokemon_start_def Let_def)

lemma fetchPokemon_hit:
  assumes "truthy (cache_get (pokemonCache s) (toLowerCase (String K)))"
  shows "fetchPokemon remote K s = (Inr (cache_get (pokemonCache s) (toLowerCase (String K))), s)"
  using assms by (simp add: fetchPokemon_def fetchPokemon_start_def Let_def)

lemma fetchPokemon_resume_success:
  assumes "constructed resp = Inr p"
  shows "fetchPokemon_resume key resp s =
           (Inr (Inst (next_oid s) p),
            s\<lparr>pokemonCache := (pokemonCache s)(key \<mapsto> (next_oid s, p)),
              next_oid := Suc (next_oid s)\<rparr>)"
  using assms by (simp add: fetchPokemon_resume_def fetchPokemon_try_def)

lemma fetchPokemon_resume_failure:
  assumes "constructed resp = Inl e"
  shows "fetchPokemon_resume key resp s = (Inr Null, fetchPokemon_catch key e s)"
  using assms by (simp add: fetchPokemon_resume_def fetchPokemon_try_def)

lemma fetchPokemon_catch_frame:
  "fetchPokemon_catch key e s = s\<lparr>console := console (fetchPokemon_catch key e s)\<rparr>"
  by (cases "(key, e, s)" rule: fetchPokemon_catch.cases) simp_all

lemma fetchPokemon_catch_fields [simp]:
  "pokemonCache (fetchPokemon_catch key e s) = pokemonCache s"
  "next_oid (fetchPokemon_catch key e s) = next_oid s"
  "requests (fetchPokemon_catch key e s) = requests s"
  "searchInput_value (fetchPokemon_catch key e s) = searchInput_value s"
  "pokemonContainer_innerHTML (fetchPokemon_catch key e s) = pokemonContainer_innerHTML s"
  "pokemonContainer_display (fetchPokemon_catch key e s) = pokemonContainer_display s"
  "suggestionsContainer_innerHTML (fetchPokemon_catch key e s) = suggestionsContainer_innerHTML s"
  "suggestionsContainer_display (fetchPokemon_catch key e s) = suggestionsContainer_display s"
  by (cases "(key, e, s)" rule: fetchPokemon_catch.cases; simp)+

text \<open>
  C2. For a key that is not cached yet and that the catalogue answers with a
  well-formed record, a call of \<open>fetchPokemon\<close> followed by a second call with the
  same argument returns the same \<open>Pokemon\<close> instance both times; the second call
  leaves the state as it is, so the two calls issue exactly one request.
\<close>

theorem fetchPokemon_memoized:
  assumes "\<not> truthy (cache_get (pokemonCache s) (toLowerCase (String K)))"
    and "constructed (remote (length (requests s)) (POKEAPI_URL @ toLowerCase (String K))) = Inr p"
  shows "case fetchPokemon remote K s of
           (r1, s1) \<Rightarrow>
             (case fetchPokemon remote K s1 of
                (r2, s2) \<Rightarrow>
                  r1 = Inr (Inst (next_oid s) p) \<and> r2 = r1 \<and> s2 = s1 \<and>
                  cache_get (pokemonCache s2) (toLowerCase (String K)) = Inst (next_oid s) p \<and>
                  requests s2 = requests s @ [POKEAPI_URL @ toLowerCase (String K)])"
proof -
  let ?key = "toLowerCase (String K)"
  let ?s1 = "s\<lparr>requests := requests s @ [POKEAPI_URL @ ?key],
               pokemonCache := (pokemonCache s)(?key \<mapsto> (next_oid s, p)),
               next_oid := Suc (next_oid s)\<rparr>"
  have first: "fetchPokemon remote K s = (Inr (Inst (next_oid s) p), ?s1)"
    using assms by (simp add: fetchPokemon_miss fetchPokemon_resume_success)
  have hit: "cache_get (pokemonCache ?s1) ?key = Inst (next_oid s) p"
    by (simp add: cache_get_def)
  then have second: "fetchPokemon remote K ?s1 = (Inr (Inst (next_oid s) p), ?s1)"
    by (simp add: fetchPokemon_hit)
  show ?thesis
    unfolding first second prod.case using hit by simp
qed

theorem fetchPokemon_memoized_witness:
  "\<not> truthy (cache_get (pokemonCache initial_state) (toLowerCase (String (Str ''Pikachu'')))) \<and>
   constructed (demo_remote (length (requests initial_state))
      (POKEAPI_URL @ toLowerCase (String (Str ''Pikachu'')))) = Inr pikachu \<and>
   (case fetchPokemon demo_remote (Str ''Pikachu'') initial_state of
      (r1, s1) \<Rightarrow>
        (case fetchPokemon demo_remote (Str ''Pikachu'') s1 of
           (r2, s2) \<Rightarrow>
             r1 = Inr (Inst (next_oid initial_state) pikachu) \<and> r2 = r1 \<and> s2 = s1 \<and>
             cache_get (pokemonCache s2) (toLowerCase (String (Str ''Pikachu''))) =
               Inst (next_oid initial_state) pikachu \<and>
             requests s2 =
               requests initial_state @ [POKEAPI_URL @ toLowerCase (String (Str ''Pikachu''))]))"
proof -
  have k: "toLowerCase (String (Str ''Pikachu'')) = ''pikachu''"
    by (simp add: toLowerCase_def lower_char_def)
  have a: "\<not> truthy (cache_get (pokemonCache initial_state) (toLowerCase (String (Str ''Pikachu''))))"
    unfolding k by (simp add: initial_state_def cache_get_def Object_prototype_names_def)
  have b: "constructed (demo_remote (length (requests initial_state))
      (POKEAPI_URL @ toLowerCase (String (Str ''Pikachu'')))) = Inr pikachu"
    unfolding k by (simp add: demo_remote_def constructed_pikachu)
  note c = fetchPokemon_memoized [where s = initial_state and K = "Str ''Pikachu''"
      and remote = demo_remote and p = pikachu, OF a b]
  show ?thesis by (rule conjI [OF a conjI [OF b c]])
qed


lemma fetchPokemon_resume_frame:
  "requests (snd (fetchPokemon_resume key resp s)) = requests s"
  "searchInput_value (snd (fetchPokemon_resume key resp s)) = searchInput_value s"
  "pokemonContainer_innerHTML (snd (fetchPokemon_resume key resp s)) = pokemonContainer_innerHTML s"
  "pokemonContainer_display (snd (fetchPokemon_resume key resp s)) = pokemonContainer_display s"
  "suggestionsContainer_innerHTML (snd (fetchPokemon_resume key resp s)) = suggestionsContainer_innerHTML s"
  "suggestionsContainer_display (snd (fetchPokemon_resume key resp s)) = suggestionsContainer_display s"
  by (cases "constructed resp"; simp add: fetchPokemon_resume_success fetchPokemon_resume_failure)+

lemma fetchPokemon_resume_fulfils: "\<exists>v. fst (fetchPokemon_resume key resp s) = Inr v"
  by (cases "constructed resp") (simp_all add: fetchPokemon_resume_success fetchPokemon_resume_failure)

lemma fetchPokemon_never_rejects: "\<exists>v. fst (fetchPokemon remote K s) = Inr v"
  by (cases "truthy (cache_get (pokemonCache s) (toLowerCase (String K)))")
    (simp_all add: fetchPokemon_hit fetchPokemon_miss fetchPokemon_resume_fulfils)

lemma constructed_failure_cases:
  "constructed (Inl e) = Inl e"
  "find (\<lambda>st. fst st = ''hp'') (data_stats d) = None \<Longrightarrow> constructed (Inr (PokemonData d)) = Inl TypeError"
  by (simp_all add: constructed_def)

text \<open>
  C3. For a key that is not cached and whose resolution fails (the request is
  rejected, with or without a response, or the record has no stat \<open>hp\<close> and the
  constructor throws), \<open>fetchPokemon\<close> returns \<open>null\<close>, the cache and the
  allocation counter are as before, and the next call with the same argument issues
  the request again.
\<close>

theorem failed_resolution_not_cached:
  assumes "\<not> truthy (cache_get (pokemonCache s) (toLowerCase (String K)))"
    and "constructed (remote (length (requests s)) (POKEAPI_URL @ toLowerCase (String K))) = Inl e"
  shows "case fetchPokemon remote K s of
           (r1, s1) \<Rightarrow>
             r1 = Inr Null \<and> pokemonCache s1 = pokemonCache s \<and> next_oid s1 = next_oid s \<and>
             requests s1 = requests s @ [POKEAPI_URL @ toLowerCase (String K)] \<and>
             requests (snd (fetchPokemon remote K s1)) =
               requests s @ [POKEAPI_URL @ toLowerCase (String K), POKEAPI_URL @ toLowerCase (String K)]"
proof -
  let ?key = "toLowerCase (String K)"
  let ?s1 = "fetchPokemon_catch ?key e (s\<lparr>requests := requests s @ [POKEAPI_URL @ ?key]\<rparr>)"
  have first: "fetchPokemon remote K s = (Inr Null, ?s1)"
    using assms by (simp add: fetchPokemon_miss fetchPokemon_resume_failure)
  have miss: "\<not> truthy (cache_get (pokemonCache ?s1) ?key)"
    using assms(1) by simp
  have "requests (snd (fetchPokemon remote K ?s1)) = requests ?s1 @ [POKEAPI_URL @ ?key]"
    by (simp add: fetchPokemon_miss [OF miss] fetchPokemon_resume_frame)
  then show ?thesis
    unfolding first prod.case by simp
qed

theorem failed_resolution_not_cached_witness:
  "\<not> truthy (cache_get (pokemonCache initial_state) (toLowerCase (String (Str ''99999'')))) \<and>
   constructed (demo_remote (length (requests initial_state))
      (POKEAPI_URL @ toLowerCase (String (Str ''99999'')))) = Inl (ResponseError 404) \<and>
   (case fetchPokemon demo_remote (Str ''99999'') initial_state of
      (r1, s1) \<Rightarrow>
        r1 = Inr Null \<and> pokemonCache s1 = pokemonCache initial_state \<and>
        next_oid s1 = next_oid initial_state \<and>
        requests s1 = requests initial_state @ [POKEAPI_URL @ toLowerCase (String (Str ''99999''))] \<and>
        requests (snd (fetchPokemon demo_remote (Str ''99999'') s1)) =
          requests initial_state @
            [POKEAPI_URL @ toLowerCase (String (Str ''99999'')),
             POKEAPI_URL @ toLowerCase (String (Str ''99999''))])"
proof -
  have k: "toLowerCase (String (Str ''99999'')) = ''99999''"
    by (simp add: toLowerCase_def lower_char_def)
  have a: "\<not> truthy (cache_get (pokemonCache initial_state) (toLowerCase (String (Str ''99999''))))"
    unfolding k by (simp add: initial_state_def cache_get_def Object_prototype_names_def)
  have b: "constructed (demo_remote (length (requests initial_state))
      (POKEAPI_URL @ toLowerCase (String (Str ''99999'')))) = Inl (ResponseError 404)"
    unfolding k by (simp add: demo_remote_def constructed_def POKEAPI_URL_def list_url_eq)
  note c = failed_resolution_not_cached [where s = initial_state and K = "Str ''99999''"
      and remote = demo_remote and e = "ResponseError 404", OF a b]
  show ?thesis by (rule conjI [OF a conjI [OF b c]])
qed

text \<open>
  C8. Two arguments with different keys, both not cached and both answered with the
  same well-formed record (as \<open>"25"\<close> and \<open>"pikachu"\<close> are), fill two slots of
  the cache, each with an instance of its own: the fields are equal, the identities
  differ.
\<close>

theorem distinct_keys_independent_slots:
  assumes "toLowerCase (String K1) \<noteq> toLowerCase (String K2)"
    and "\<not> truthy (cache_get (pokemonCache s) (toLowerCase (String K1)))"
    and "\<not> truthy (cache_get (pokemonCache s) (toLowerCase (String K2)))"
    and "constructed (remote (length (requests s)) (POKEAPI_URL @ toLowerCase (String K1))) = Inr p"
    and "constructed (remote (Suc (length (requests s))) (POKEAPI_URL @ toLowerCase (String K2))) = Inr p"
  shows "case fetchPokemon remote K1 s of
           (r1, s1) \<Rightarrow>
             (case fetchPokemon remote K2 s1 of
                (r2, s2) \<Rightarrow>
                  r1 = Inr (Inst (next_oid s) p) \<and> r2 = Inr (Inst (Suc (next_oid s)) p) \<and>
                  pokemonCache s2 (toLowerCase (String K1)) = Some (next_oid s, p) \<and>
                  pokemonCache s2 (toLowerCase (String K2)) = Some (Suc (next_oid s), p) \<and>
                  requests s2 =
                    requests s @ [POKEAPI_URL @ toLowerCase (String K1),
                                  POKEAPI_URL @ toLowerCase (String K2)])"
proof -
  let ?k1 = "toLowerCase (String K1)" and ?k2 = "toLowerCase (String K2)"
  let ?s1 = "s\<lparr>requests := requests s @ [POKEAPI_URL @ ?k1],
               pokemonCache := (pokemonCache s)(?k1 \<mapsto> (next_oid s, p)),
               next_oid := Suc (next_oid s)\<rparr>"
  have first: "fetchPokemon remote K1 s = (Inr (Inst (next_oid s) p), ?s1)"
    using assms(2,4) by (simp add: fetchPokemon_miss fetchPokemon_resume_success)
  have miss: "\<not> truthy (cache_get (pokemonCache ?s1) ?k2)"
    using assms(1,3) by (simp add: cache_get_def)
  have resp: "constructed (remote (length (requests ?s1)) (POKEAPI_URL @ ?k2)) = Inr p"
    using assms(5) by simp
  have second: "fetchPokemon remote K2 ?s1 =
      (Inr (Inst (Suc (next_oid s)) p),
       ?s1\<lparr>requests := requests ?s1 @ [POKEAPI_URL @ ?k2],
           pokemonCache := (pokemonCache ?s1)(?k2 \<mapsto> (Suc (next_oid s), p)),
           next_oid := Suc (Suc (next_oid s))\<rparr>)"
    by (subst fetchPokemon_miss [OF miss], subst fetchPokemon_resume_success [OF resp]) simp
  show ?thesis
    unfolding first second prod.case using assms(1) by simp
qed

theorem distinct_keys_independent_slots_witness:
  "toLowerCase (String (Str ''25'')) \<noteq> toLowerCase (String (Str ''pikachu'')) \<and>
   \<not> truthy (cache_get (pokemonCache initial_state) (toLowerCase (String (Str ''25'')))) \<and>
   \<not> truthy (cache_get (pokemonCache initial_state) (toLowerCase (String (Str ''pikachu'')))) \<and>
   constructed (demo_remote (length (requests initial_state))
      (POKEAPI_URL @ toLowerCase (String (Str ''25'')))) = Inr pikachu \<and>
   constructed (demo_remote (Suc (length (requests initial_state)))
      (POKEAPI_URL @ toLowerCase (String (Str ''pikachu'')))) = Inr pikachu \<and>
   (case fetchPokemon demo_remote (Str ''25'') initial_state of
      (r1, s1) \<Rightarrow>
        (case fetchPokemon demo_remote (Str ''pikachu'') s1 of
           (r2, s2) \<Rightarrow>
             r1 = Inr (Inst (next_oid initial_state) pikachu) \<and>
             r2 = Inr (Inst (Suc (next_oid initial_state)) pikachu) \<and>
             pokemonCache s2 (toLowerCase (String (Str ''25''))) =
               Some (next_oid initial_state, pikachu) \<and>
             pokemonCache s2 (toLowerCase (String (Str ''pikachu''))) =
               Some (Suc (next_oid initial_state), pikachu) \<and>
             requests s2 =
               requests initial_state @
                 [POKEAPI_URL @ toLowerCase (String (Str ''25'')),
                  POKEAPI_URL @ toLowerCase (String (Str ''pikachu''))]))"
proof -
  have k1: "toLowerCase (String (Str ''25'')) = ''25''"
    and k2: "toLowerCase (String (Str ''pikachu'')) = ''pikachu''"
    by (simp_all add: toLowerCase_def lower_char_def)
  have a: "toLowerCase (String (Str ''25'')) \<noteq> toLowerCase (String (Str ''pikachu''))"
    unfolding k1 k2 by simp
  have b: "\<not> truthy (cache_get (pokemonCache initial_state) (toLowerCase (String (Str ''25''))))"
    unfolding k1 by (simp add: initial_state_def cache_get_def Object_prototype_names_def)
  have c: "\<not> truthy (cache_get (pokemonCache initial_state) (toLowerCase (String (Str ''pikachu''))))"
    unfolding k2 by (simp add: initial_state_def cache_get_def Object_prototype_names_def)
  have d: "constructed (demo_remote (length (requests initial_state))
      (POKEAPI_URL @ toLowerCase (String (Str ''25'')))) = Inr pikachu"
    unfolding k1 by (simp add: demo_remote_def constructed_pikachu)
  have e: "constructed (demo_remote (Suc (length (requests initial_state)))
      (POKEAPI_URL @ toLowerCase (String (Str ''pikachu'')))) = Inr pikachu"
    unfolding k2 by (simp add: demo_remote_def constructed_pikachu)
  note f = distinct_keys_independent_slots [where s = initial_state and ?K1.0 = "Str ''25''"
      and ?K2.0 = "Str ''pikachu''" and remote = demo_remote and p = pikachu, OF a b c d e]
  show ?thesis by (rule conjI [OF a conjI [OF b conjI [OF c conjI [OF d conjI [OF e f]]]]])
qed

text \<open>
  C9. \<open>resetSearch\<close> empties the search input, empties and hides both containers,
  and leaves the cache, the allocation counter and the request log as they were.
\<close>

theorem resetSearch_hides_surfaces_keeps_cache:
  "searchInput_value (resetSearch s) = [] \<and>
   pokemonContainer_innerHTML (resetSearch s) = [] \<and>
   pokemonContainer_display (resetSearch s) = DisplayNone \<and>
   suggestionsContainer_innerHTML (resetSearch s) = [] \<and>
   suggestionsContainer_display (resetSearch s) = DisplayNone \<and>
   pokemonCache (resetSearch s) = pokemonCache s \<and>
   next_oid (resetSearch s) = next_oid s \<and>
   requests (resetSearch s) = requests s \<and>
   step remote Refresh s = resetSearch s"
  by (simp add: resetSearch_def)

text \<open>
  C10. \<open>fetchPokemon\<close> never rejects (lemma \<open>fetchPokemon_never_rejects\<close>), but
  it does not always return a \<open>Pokemon\<close> or \<open>null\<close>: for the argument
  \<open>"constructor"\<close> the cache check reads the property the cache object inherits
  from \<open>Object.prototype\<close>, finds it truthy and returns it, on an empty cache and
  without a request.
\<close>

theorem fetchPokemon_returns_inherited_property:
  "fetchPokemon remote (Str ''constructor'') initial_state =
     (Inr (Builtin ''constructor''), initial_state) \<and>
   \<not> instanceof_Pokemon (Builtin ''constructor'') \<and> Builtin ''constructor'' \<noteq> Null"
  by (simp add: fetchPokemon_def fetchPokemon_start_def toLowerCase_def lower_char_def
      initial_state_def cache_get_def Object_prototype_names_def)

text \<open>
  What the user sees of it: a search for \<open>constructor\<close> hands the inherited
  property to \<open>displayPokemon\<close>, whose call of \<open>renderCard\<close> throws, and the
  promise of \<open>searchPokemons\<close> is rejected.
\<close>

lemma search_for_inherited_name_throws:
  "fst (searchPokemons remote ''constructor'' initial_state) = Some TypeError"
  by (simp add: searchPokemons_def searchPokemons_start_def searchPokemons_finish_def
      fetchPokemon_start_def toLowerCase_def lower_char_def initial_state_def cache_get_def
      Object_prototype_names_def displayPokemon_def)

section \<open>Properties of the batch\<close>

lemma settle_cases:
  obtains v s1 where "settle remote t s = (Inr v, s1)" "entity_of v = task_entity remote t"
    "requests s1 = requests s" "searchInput_value s1 = searchInput_value s"
    "pokemonContainer_innerHTML s1 = pokemonContainer_innerHTML s"
    "pokemonContainer_display s1 = pokemonContainer_display s"
    "suggestionsContainer_innerHTML s1 = suggestionsContainer_innerHTML s"
    "suggestionsContainer_display s1 = suggestionsContainer_display s"
proof (cases t)
  case (Done v)
  then show ?thesis using that [of v s] by simp
next
  case (Pending key n)
  show ?thesis
  proof (cases "constructed (remote n (POKEAPI_URL @ key))")
    case (Inl e)
    then show ?thesis
      using that [of Null "fetchPokemon_catch key e s"] Pending
      by (simp add: fetchPokemon_resume_failure)
  next
    case (Inr p)
    then show ?thesis
      using that [of "Inst (next_oid s) p"
          "s\<lparr>pokemonCache := (pokemonCache s)(key \<mapsto> (next_oid s, p)), next_oid := Suc (next_oid s)\<rparr>"] Pending
      by (simp add: fetchPokemon_resume_success)
  qed
qed

lemma Promise_all_notify_fulfilled:
  assumes "all_outcome j = None"
  shows "Promise_all_notify i (Inr v) j =
           \<lparr>all_values = (all_values j)[i := v], all_remaining = all_remaining j - 1,
            all_outcome = (if all_remaining j - 1 = 0 then Some (Inr ((all_values j)[i := v])) else None)\<rparr>"
  using assms by (simp add: Promise_all_notify_def Let_def)

lemma settle_loop_all_fulfilled:
  assumes "all_outcome j = None" and "all_remaining j = length order" and "order \<noteq> []"
  shows "settle_loop remote k order j s tr =
           (case settle_all remote order (all_values j) s of
              (vs, s') \<Rightarrow>
                (\<lparr>all_values = vs, all_remaining = 0, all_outcome = Some (Inr vs)\<rparr>,
                 k (Inr vs) s',
                 tr @ map (\<lambda>it. ItemSettled (fst it)) order @ [BatchCompleted]))"
  using assms
proof (induction order arbitrary: j s tr)
  case Nil
  then show ?case by simp
next
  case (Cons it ps)
  obtain i t where it: "it = (i, t)" by (cases it)
  obtain v s1 where st: "settle remote t s = (Inr v, s1)"
    by (rule settle_cases)
  let ?j1 = "Promise_all_notify i (Inr v) j"
  have j1: "?j1 = \<lparr>all_values = (all_values j)[i := v], all_remaining = length ps,
            all_outcome = (if ps = [] then Some (Inr ((all_values j)[i := v])) else None)\<rparr>"
    using Cons.prems by (simp add: Promise_all_notify_fulfilled)
  show ?case
  proof (cases "ps = []")
    case True
    then show ?thesis
      using Cons.prems(1) by (simp add: it st j1)
  next
    case False
    have o1: "all_outcome ?j1 = None" and r1: "all_remaining ?j1 = length ps"
      using False by (simp_all add: j1)
    have v1: "all_values ?j1 = (all_values j)[i := v]" by (simp add: j1)
    have "settle_loop remote k (it # ps) j s tr =
            settle_loop remote k ps ?j1 s1 (tr @ [ItemSettled i])"
      using Cons.prems(1) o1 by (simp add: it st)
    also have "\<dots> = (case settle_all remote ps (all_values ?j1) s1 of
              (vs, s') \<Rightarrow>
                (\<lparr>all_values = vs, all_remaining = 0, all_outcome = Some (Inr vs)\<rparr>,
                 k (Inr vs) s',
                 (tr @ [ItemSettled i]) @ map (\<lambda>it. ItemSettled (fst it)) ps @ [BatchCompleted]))"
      by (rule Cons.IH [OF o1 r1 False])
    finally show ?thesis
      by (simp add: it st v1)
  qed
qed

lemma settle_all_values:
  assumes "distinct (map fst order)" and "\<forall>it \<in> set order. fst it < length vs"
  shows "case settle_all remote order vs s of
           (vs', s') \<Rightarrow>
             length vs' = length vs \<and>
             (\<forall>it \<in> set order. entity_of (vs' ! fst it) = task_entity remote (snd it)) \<and>
             (\<forall>i. i \<notin> fst ` set order \<longrightarrow> vs' ! i = vs ! i) \<and>
             requests s' = requests s \<and> searchInput_value s' = searchInput_value s \<and>
             pokemonContainer_innerHTML s' = pokemonContainer_innerHTML s \<and>
             pokemonContainer_display s' = pokemonContainer_display s \<and>
             suggestionsContainer_innerHTML s' = suggestionsContainer_innerHTML s \<and>
             suggestionsContainer_display s' = suggestionsContainer_display s"
  using assms
proof (induction order arbitrary: vs s)
  case Nil
  then show ?case by simp
next
  case (Cons it ps)
  obtain i t where it: "it = (i, t)" by (cases it)
  obtain v s1 where st: "settle remote t s = (Inr v, s1)" and ent: "entity_of v = task_entity remote t"
    and fr: "requests s1 = requests s" "searchInput_value s1 = searchInput_value s"
    "pokemonContainer_innerHTML s1 = pokemonContainer_innerHTML s"
    "pokemonContainer_display s1 = pokemonContainer_display s"
    "suggestionsContainer_innerHTML s1 = suggestionsContainer_innerHTML s"
    "suggestionsContainer_display s1 = suggestionsContainer_display s"
    by (rule settle_cases)
  obtain vs' s' where res: "settle_all remote ps (vs[i := v]) s1 = (vs', s')"
    by (cases "settle_all remote ps (vs[i := v]) s1")
  have d: "distinct (map fst ps)" and b: "\<forall>it \<in> set ps. fst it < length (vs[i := v])"
    and inotin: "i \<notin> fst ` set ps" and ilt: "i < length vs"
    using Cons.prems by (auto simp: it)
  from Cons.IH [OF d b, of s1] res
  have ih: "length vs' = length vs"
    "\<forall>it \<in> set ps. entity_of (vs' ! fst it) = task_entity remote (snd it)"
    "\<forall>k. k \<notin> fst ` set ps \<longrightarrow> vs' ! k = vs[i := v] ! k"
    "requests s' = requests s1" "searchInput_value s' = searchInput_value s1"
    "pokemonContainer_innerHTML s' = pokemonContainer_innerHTML s1"
    "pokemonContainer_display s' = pokemonContainer_display s1"
    "suggestionsContainer_innerHTML s' = suggestionsContainer_innerHTML s1"
    "suggestionsContainer_display s' = suggestionsContainer_display s1"
    by simp_all
  have here: "vs' ! i = v"
    using ih(3) inotin ilt by simp
  have "settle_all remote (it # ps) vs s = (vs', s')"
    by (simp add: it st res)
  moreover have "\<forall>it' \<in> set (it # ps). entity_of (vs' ! fst it') = task_entity remote (snd it')"
    using ih(2) here ent by (simp add: it)
  moreover have "\<forall>k. k \<notin> fst ` set (it # ps) \<longrightarrow> vs' ! k = vs ! k"
    using ih(3) by (auto simp: it)
  ultimately show ?case
    using ih(1,4-) fr by simp
qed


lemma mset_reorder: "mset (reorder cs xs) = mset xs"
proof (induction cs xs rule: reorder.induct)
  case (3 c cs x xs)
  let ?ys = "x # xs"
  let ?i = "c mod length ?ys"
  have lt: "?i < length ?ys" by simp
  have "mset ?ys = mset (take ?i ?ys @ ?ys ! ?i # drop (Suc ?i) ?ys)"
    using id_take_nth_drop [OF lt] by simp
  then show ?case
    using 3 [of ?i] by (simp add: Let_def)
qed simp_all

text \<open>Every order of the pending requests is the order of some schedule.\<close>

lemma reorder_reaches_every_order:
  "mset ys = mset xs \<Longrightarrow> \<exists>cs. reorder cs xs = ys"
proof (induction ys arbitrary: xs)
  case Nil
  then have "xs = []" by simp
  then show ?case by (intro exI [of _ "[]"]) simp
next
  case (Cons y ys)
  then have "y \<in> set xs"
    by (metis list.set_intros(1) mset_eq_setD)
  then obtain i where i: "i < length xs" and y: "xs ! i = y"
    by (auto simp: in_set_conv_nth)
  let ?xs' = "take i xs @ drop (Suc i) xs"
  have "mset xs = mset (take i xs @ xs ! i # drop (Suc i) xs)"
    using id_take_nth_drop [OF i] by simp
  then have "mset xs = add_mset y (mset ?xs')"
    using y by simp
  with Cons.prems have "mset ys = mset ?xs'" by simp
  from Cons.IH [OF this] obtain cs where cs: "reorder cs ?xs' = ys" by blast
  obtain x xs0 where xs: "xs = x # xs0"
    using i by (cases xs) auto
  have "reorder (i # cs) xs = y # ys"
    using i y cs unfolding xs by (simp add: Let_def)
  then show ?case by blast
qed

lemma mset_arrival_order: "mset (arrival_order sched ts) = mset (zip [0..<length ts] ts)"
  by (simp add: arrival_order_def Let_def mset_reorder)

lemma arrival_order_indices: "mset (map fst (arrival_order sched ts)) = mset [0..<length ts]"
proof -
  have "mset (map fst (arrival_order sched ts)) = mset (map fst (zip [0..<length ts] ts))"
    unfolding mset_map mset_arrival_order ..
  also have "map fst (zip [0..<length ts] ts) = [0..<length ts]"
    by (rule map_fst_zip) simp
  finally show ?thesis .
qed

lemma arrival_order_props:
  "distinct (map fst (arrival_order sched ts))"
  "set (arrival_order sched ts) = set (zip [0..<length ts] ts)"
  "length (arrival_order sched ts) = length ts"
proof -
  show "distinct (map fst (arrival_order sched ts))"
    using mset_eq_imp_distinct_iff [OF arrival_order_indices [of sched ts]] by simp
  show "set (arrival_order sched ts) = set (zip [0..<length ts] ts)"
    by (rule mset_eq_setD [OF mset_arrival_order])
  show "length (arrival_order sched ts) = length ts"
    using mset_eq_length [OF mset_arrival_order [of sched ts]] by simp
qed

lemma launch_result:
  "case launch names s of
     (ts, s1) \<Rightarrow>
       length ts = length names \<and>
       s1 = s\<lparr>requests := requests s @ spec_batch_requests (pokemonCache s) names\<rparr> \<and>
       map (task_entity remote) ts =
         spec_batch_resolve remote (pokemonCache s) (length (requests s)) names"
proof (induction names arbitrary: s)
  case Nil
  then show ?case by (simp add: spec_batch_requests_def)
next
  case (Cons name names)
  let ?key = "toLowerCase name"
  show ?case
  proof (cases "truthy (cache_get (pokemonCache s) ?key)")
    case True
    then have st: "fetchPokemon_start (Str name) s = (Done (cache_get (pokemonCache s) ?key), s)"
      by (simp add: fetchPokemon_start_def Let_def)
    obtain ts s2 where l: "launch names s = (ts, s2)" by (cases "launch names s")
    from Cons.IH [of s] l True show ?thesis
      by (simp add: st spec_batch_requests_def spec_resolve_def)
  next
    case False
    let ?s1 = "s\<lparr>requests := requests s @ [POKEAPI_URL @ ?key]\<rparr>"
    from False have st: "fetchPokemon_start (Str name) s = (Pending ?key (length (requests s)), ?s1)"
      by (simp add: fetchPokemon_start_def Let_def)
    obtain ts s2 where l: "launch names ?s1 = (ts, s2)" by (cases "launch names ?s1")
    from Cons.IH [of ?s1] l False show ?thesis
      by (simp add: st spec_batch_requests_def spec_resolve_def split: sum.splits)
  qed
qed

lemma render_cards_filtered:
  "render_cards mk (filter instanceof_Pokemon vs) =
     Inr (map (\<lambda>p. mk (renderCard p) p) (somes (map entity_of vs)))"
proof (induction vs)
  case Nil
  then show ?case by simp
next
  case (Cons v vs)
  then show ?case by (cases v) simp_all
qed

lemma filtered_empty_iff:
  "filter instanceof_Pokemon vs = [] \<longleftrightarrow> somes (map entity_of vs) = []"
proof (induction vs)
  case Nil
  then show ?case by simp
next
  case (Cons v vs)
  then show ?case by (cases v) simp_all
qed

lemma batch_cases:
  obtains vs s_end where
    "Promise_all_fetchPokemon remote sched k names s =
       (\<lparr>all_values = vs, all_remaining = 0, all_outcome = Some (Inr vs)\<rparr>,
        k (Inr vs) s_end,
        map ItemSettled (map fst (arrival_order sched (fst (launch names s)))) @ [BatchCompleted])"
    "length vs = length names"
    "map entity_of vs = spec_batch_resolve remote (pokemonCache s) (length (requests s)) names"
    "requests s_end = requests s @ spec_batch_requests (pokemonCache s) names"
    "searchInput_value s_end = searchInput_value s"
    "pokemonContainer_innerHTML s_end = pokemonContainer_innerHTML s"
    "pokemonContainer_display s_end = pokemonContainer_display s"
    "suggestionsContainer_innerHTML s_end = suggestionsContainer_innerHTML s"
    "suggestionsContainer_display s_end = suggestionsContainer_display s"
proof -
  obtain ts s1 where l: "launch names s = (ts, s1)" by (cases "launch names s")
  from launch_result [of names s remote] l
  have len: "length ts = length names"
    and s1: "s1 = s\<lparr>requests := requests s @ spec_batch_requests (pokemonCache s) names\<rparr>"
    and ents: "map (task_entity remote) ts =
         spec_batch_resolve remote (pokemonCache s) (length (requests s)) names"
    by simp_all
  let ?order = "arrival_order sched ts"
  let ?v0 = "replicate (length ts) Undefined"
  obtain vs s_end where sa: "settle_all remote ?order ?v0 s1 = (vs, s_end)"
    by (cases "settle_all remote ?order ?v0 s1")
  have bound: "\<forall>it \<in> set ?order. fst it < length ?v0"
    by (auto simp: arrival_order_props(2) dest: set_zip_leftD)
  from settle_all_values [OF arrival_order_props(1) bound, of remote s1] sa
  have vlen: "length vs = length ts"
    and vent: "\<forall>it \<in> set ?order. entity_of (vs ! fst it) = task_entity remote (snd it)"
    and fr: "requests s_end = requests s1" "searchInput_value s_end = searchInput_value s1"
      "pokemonContainer_innerHTML s_end = pokemonContainer_innerHTML s1"
      "pokemonContainer_display s_end = pokemonContainer_display s1"
      "suggestionsContainer_innerHTML s_end = suggestionsContainer_innerHTML s1"
      "suggestionsContainer_display s_end = suggestionsContainer_display s1"
    by simp_all
  have "map entity_of vs = map (task_entity remote) ts"
  proof (rule nth_equalityI)
    show "length (map entity_of vs) = length (map (task_entity remote) ts)"
      by (simp add: vlen)
  next
    fix i assume "i < length (map entity_of vs)"
    then have i: "i < length ts" by (simp add: vlen)
    then have "zip [0..<length ts] ts ! i \<in> set (zip [0..<length ts] ts)"
      by (intro nth_mem) simp
    with i have "(i, ts ! i) \<in> set (zip [0..<length ts] ts)"
      by simp
    then have "(i, ts ! i) \<in> set ?order" by (simp add: arrival_order_props(2))
    with vent have "entity_of (vs ! i) = task_entity remote (ts ! i)" by fastforce
    then show "map entity_of vs ! i = map (task_entity remote) ts ! i"
      using i by (simp add: vlen)
  qed
  with ents have e: "map entity_of vs =
      spec_batch_resolve remote (pokemonCache s) (length (requests s)) names" by simp
  have run: "Promise_all_fetchPokemon remote sched k names s =
       (\<lparr>all_values = vs, all_remaining = 0, all_outcome = Some (Inr vs)\<rparr>,
        k (Inr vs) s_end, map ItemSettled (map fst ?order) @ [BatchCompleted])"
  proof (cases "ts = []")
    case True
    with sa have "vs = []" "s_end = s1" by (simp_all add: arrival_order_def)
    with True l show ?thesis
      by (simp add: Promise_all_fetchPokemon_def Promise_all_init_def arrival_order_def)
  next
    case False
    let ?j0 = "Promise_all_init (length ts)"
    have o: "all_outcome ?j0 = None" and r: "all_remaining ?j0 = length ?order"
      and ne: "?order \<noteq> []" and v: "all_values ?j0 = ?v0"
      using False arrival_order_props(3) [of sched ts]
      by (auto simp: Promise_all_init_def)
    show ?thesis
      using l o by (simp add: Promise_all_fetchPokemon_def settle_loop_all_fulfilled [OF o r ne] v sa)
  qed
  show ?thesis
    using that [of vs s_end] run l len vlen e fr s1 by simp
qed


lemma is_prefix_iff: "is_prefix xs ys = prefix xs ys"
  by (induction xs ys rule: is_prefix.induct) simp_all

lemma includes_str_sublist: "includes_str s t = sublist t s"
  by (induction s) (simp_all add: is_prefix_iff sublist_Cons_right)

lemma matchingNames_sublist:
  "matchingNames query results =
     filter (\<lambda>name. sublist (toLowerCase query) (toLowerCase name)) results"
  by (simp add: matchingNames_def includes_str_sublist)

lemma filter_index_snoc:
  "filter_index P (xs @ [x]) = filter_index P xs @ (if P x (length xs) then [x] else [])"
  by (simp add: filter_index_def)

lemma filter_index_take: "filter_index (\<lambda>x i. i < n) xs = take n xs"
proof (induction xs rule: rev_induct)
  case Nil
  then show ?case by (simp add: filter_index_def)
next
  case (snoc x xs)
  then show ?case by (simp add: filter_index_snoc)
qed

lemma pokemonNamesForType_take: "pokemonNamesForType members = take 151 members"
  by (simp add: pokemonNamesForType_def TOTAL_POKEMON_def filter_index_take)

lemma displaySuggestions_filtered:
  "displaySuggestions (filter instanceof_Pokemon vs) s =
     (None,
      if somes (map entity_of vs) = []
      then s\<lparr>suggestionsContainer_innerHTML := [], suggestionsContainer_display := DisplayNone\<rparr>
      else s\<lparr>suggestionsContainer_innerHTML :=
                map (\<lambda>p. SuggestionCard (renderCard p) p) (somes (map entity_of vs)),
              suggestionsContainer_display := DisplayFlex,
              pokemonContainer_display := DisplayNone\<rparr>)"
  by (simp add: displaySuggestions_def Let_def render_cards_filtered filtered_empty_iff)

lemma displayPokemon_filtered:
  "displayPokemon (filter instanceof_Pokemon vs) s =
     (None,
      s\<lparr>pokemonContainer_innerHTML := map (\<lambda>p. Card (renderCard p)) (somes (map entity_of vs)),
        pokemonContainer_display := DisplayFlex,
        suggestionsContainer_display := DisplayNone\<rparr>)"
  by (simp add: displayPokemon_def Let_def render_cards_filtered)

text \<open>
  C4. A batch of detail requests (that of \<open>fetchSuggestions\<close> and that of a type
  filter are the instances \<open>k = fetchSuggestions_then\<close> and
  \<open>k = filter_click_then ty\<close>), under every catalogue and every schedule:
  every item settles before the batch completes, the joint promise is fulfilled, never
  rejected, with one value per name, the values are the resolutions of the names in
  the order of the names with the failed ones not entities, and the code after the
  \<open>await\<close> runs once, on a state whose containers the items have not touched.
\<close>

theorem batch_joins_after_every_resolution:
  "case Promise_all_fetchPokemon remote sched k names s of
     (j, s', tr) \<Rightarrow>
       joined_after_all (length names) j tr \<and>
       map entity_of (all_values j) =
         spec_batch_resolve remote (pokemonCache s) (length (requests s)) names \<and>
       (\<exists>s_end. s' = k (Inr (all_values j)) s_end \<and>
          pokemonContainer_innerHTML s_end = pokemonContainer_innerHTML s \<and>
          pokemonContainer_display s_end = pokemonContainer_display s \<and>
          suggestionsContainer_innerHTML s_end = suggestionsContainer_innerHTML s \<and>
          suggestionsContainer_display s_end = suggestionsContainer_display s)"
proof -
  obtain vs s_end where run: "Promise_all_fetchPokemon remote sched k names s =
       (\<lparr>all_values = vs, all_remaining = 0, all_outcome = Some (Inr vs)\<rparr>,
        k (Inr vs) s_end,
        map ItemSettled (map fst (arrival_order sched (fst (launch names s)))) @ [BatchCompleted])"
    and len: "length vs = length names"
    and ents: "map entity_of vs = spec_batch_resolve remote (pokemonCache s) (length (requests s)) names"
    and fr: "pokemonContainer_innerHTML s_end = pokemonContainer_innerHTML s"
      "pokemonContainer_display s_end = pokemonContainer_display s"
      "suggestionsContainer_innerHTML s_end = suggestionsContainer_innerHTML s"
      "suggestionsContainer_display s_end = suggestionsContainer_display s"
    by (rule batch_cases)
  let ?ts = "fst (launch names s)"
  have tslen: "length ?ts = length names"
    using launch_result [of names s remote] by (simp add: case_prod_beta)
  have "mset (map ItemSettled (map fst (arrival_order sched ?ts))) = mset (map ItemSettled [0..<length names])"
    using arrival_order_indices [of sched ?ts] unfolding tslen
    by (metis mset_map)
  then have "joined_after_all (length names)
      \<lparr>all_values = vs, all_remaining = 0, all_outcome = Some (Inr vs)\<rparr>
      (map ItemSettled (map fst (arrival_order sched ?ts)) @ [BatchCompleted])"
    by (simp add: joined_after_all_def len)
  with ents fr show ?thesis
    unfolding run prod.case by auto
qed

theorem batch_joins_after_every_resolution_witness:
  "case Promise_all_fetchPokemon demo_remote [1] fetchSuggestions_then [''pikachu'', ''raichu''] initial_state of
     (j, s', tr) \<Rightarrow>
       joined_after_all (length [''pikachu'', ''raichu'']) j tr \<and>
       map entity_of (all_values j) =
         spec_batch_resolve demo_remote (pokemonCache initial_state)
           (length (requests initial_state)) [''pikachu'', ''raichu''] \<and>
       (\<exists>s_end. s' = fetchSuggestions_then (Inr (all_values j)) s_end \<and>
          pokemonContainer_innerHTML s_end = pokemonContainer_innerHTML initial_state \<and>
          pokemonContainer_display s_end = pokemonContainer_display initial_state \<and>
          suggestionsContainer_innerHTML s_end = suggestionsContainer_innerHTML initial_state \<and>
          suggestionsContainer_display s_end = suggestionsContainer_display initial_state)"
  by (rule batch_joins_after_every_resolution)

text \<open>
  C5. For a non-empty query and a listing answered with the names \<open>index\<close>
  (requested with \<open>limit=151\<close>), \<open>fetchSuggestions\<close> resolves exactly the names
  that contain the query as a substring, both in lower case, and shows the resolved
  ones in the order of the listing, the failed ones left out, under every schedule.
\<close>

theorem fetchSuggestions_resolves_matches_in_order:
  assumes "query \<noteq> []"
    and "remote (length (requests s)) list_url = Inr (ListData index)"
  shows "let matches = filter (\<lambda>name. sublist (toLowerCase query) (toLowerCase name)) index;
             resolved = somes (spec_batch_resolve remote (pokemonCache s) (Suc (length (requests s))) matches)
         in case fetchSuggestions remote sched query s of
              (j, s', tr) \<Rightarrow>
                map_option (\<lambda>a. somes (map entity_of (all_values a))) j = Some resolved \<and>
                suggestionsContainer_innerHTML s' = map (\<lambda>p. SuggestionCard (renderCard p) p) resolved \<and>
                suggestionsContainer_display s' = (if resolved = [] then DisplayNone else DisplayFlex) \<and>
                requests s' = requests s @ list_url # spec_batch_requests (pokemonCache s) matches \<and>
                list_url = ''https://pokeapi.co/api/v2/pokemon/?limit=151&offset=0''"
proof -
  let ?matches = "filter (\<lambda>name. sublist (toLowerCase query) (toLowerCase name)) index"
  let ?s1 = "s\<lparr>requests := requests s @ [list_url]\<rparr>"
  obtain vs s_end where run: "Promise_all_fetchPokemon remote sched fetchSuggestions_then ?matches ?s1 =
       (\<lparr>all_values = vs, all_remaining = 0, all_outcome = Some (Inr vs)\<rparr>,
        fetchSuggestions_then (Inr vs) s_end,
        map ItemSettled (map fst (arrival_order sched (fst (launch ?matches ?s1)))) @ [BatchCompleted])"
    and ents: "map entity_of vs = spec_batch_resolve remote (pokemonCache ?s1) (length (requests ?s1)) ?matches"
    and req: "requests s_end = requests ?s1 @ spec_batch_requests (pokemonCache ?s1) ?matches"
    by (rule batch_cases)
  have fs: "fetchSuggestions remote sched query s =
      (Some \<lparr>all_values = vs, all_remaining = 0, all_outcome = Some (Inr vs)\<rparr>,
        fetchSuggestions_then (Inr vs) s_end,
        map ItemSettled (map fst (arrival_order sched (fst (launch ?matches ?s1)))) @ [BatchCompleted])"
    using assms by (simp add: fetchSuggestions_def Let_def matchingNames_sublist run)
  have e: "map entity_of vs = spec_batch_resolve remote (pokemonCache s) (Suc (length (requests s))) ?matches"
    using ents by simp
  show ?thesis
    unfolding Let_def fs prod.case
    using req by (simp add: fetchSuggestions_then_def displaySuggestions_filtered e list_url_eq)
qed

theorem fetchSuggestions_resolves_matches_in_order_witness:
  "''chu'' \<noteq> [] \<and>
   demo_remote (length (requests initial_state)) list_url =
     Inr (ListData [''bulbasaur'', ''pikachu'', ''raichu'']) \<and>
   (let matches = filter (\<lambda>name. sublist (toLowerCase ''chu'') (toLowerCase name))
                    [''bulbasaur'', ''pikachu'', ''raichu''];
        resolved = somes (spec_batch_resolve demo_remote (pokemonCache initial_state)
                     (Suc (length (requests initial_state))) matches)
    in case fetchSuggestions demo_remote [1] ''chu'' initial_state of
         (j, s', tr) \<Rightarrow>
           map_option (\<lambda>a. somes (map entity_of (all_values a))) j = Some resolved \<and>
           suggestionsContainer_innerHTML s' = map (\<lambda>p. SuggestionCard (renderCard p) p) resolved \<and>
           suggestionsContainer_display s' = (if resolved = [] then DisplayNone else DisplayFlex) \<and>
           requests s' =
             requests initial_state @
               list_url # spec_batch_requests (pokemonCache initial_state) matches \<and>
           list_url = ''https://pokeapi.co/api/v2/pokemon/?limit=151&offset=0'')"
proof -
  have a: "''chu'' \<noteq> []" by simp
  have b: "demo_remote (length (requests initial_state)) list_url =
     Inr (ListData [''bulbasaur'', ''pikachu'', ''raichu''])"
    by (simp add: demo_remote_def list_url_eq POKEAPI_URL_def)
  note c = fetchSuggestions_resolves_matches_in_order [where query = "''chu''"
      and s = initial_state and remote = demo_remote
      and index = "[''bulbasaur'', ''pikachu'', ''raichu'']" and sched = "[1]", OF a b]
  show ?thesis by (rule conjI [OF a conjI [OF b c]])
qed

lemma fetchSuggestions_example:
  "suggestionsContainer_innerHTML (fst (snd (fetchSuggestions demo_remote [1] ''CHU'' initial_state))) =
     [SuggestionCard (renderCard pikachu) pikachu] \<and>
   requests (fst (snd (fetchSuggestions demo_remote [1] ''CHU'' initial_state))) =
     [list_url, POKEAPI_URL @ ''pikachu'', POKEAPI_URL @ ''raichu''] \<and>
   snd (snd (fetchSuggestions demo_remote [1] ''CHU'' initial_state)) =
     [ItemSettled 1, ItemSettled 0, BatchCompleted]"
  by code_simp

text \<open>
  C6. For a membership list of more than 151 names, the click listener of a type
  filter resolves the first 151 names, in the order of the list, and requests nothing
  for the others; the results container shows the resolved entities in that order,
  and the message for no results, which is not the error message, when there is
  none.
\<close>

theorem filter_click_resolves_first_151:
  assumes "remote (length (requests s)) (type_url ty) = Inr (TypeData members)"
    and "151 < length members"
  shows "let names = take 151 members;
             resolved = somes (spec_batch_resolve remote (pokemonCache s) (Suc (length (requests s))) names)
         in case filter_click remote sched ty s of
              (j, s', tr) \<Rightarrow>
                pokemonNamesForType members = names \<and> length names = 151 \<and>
                map_option (\<lambda>a. length (all_values a)) j = Some 151 \<and>
                map_option (\<lambda>a. somes (map entity_of (all_values a))) j = Some resolved \<and>
                requests s' = requests s @ type_url ty # spec_batch_requests (pokemonCache s) names \<and>
                pokemonContainer_innerHTML s' =
                  (if resolved = [] then [Paragraph (no_results_message ty)]
                   else map (\<lambda>p. Card (renderCard p)) resolved) \<and>
                pokemonContainer_display s' = DisplayFlex \<and>
                no_results_message ty \<noteq> type_error_message"
proof -
  let ?names = "take 151 members"
  let ?s1 = "s\<lparr>searchInput_value := [], suggestionsContainer_innerHTML := [],
                 suggestionsContainer_display := DisplayNone,
                 requests := requests s @ [type_url ty]\<rparr>"
  obtain vs s_end where run: "Promise_all_fetchPokemon remote sched (filter_click_then ty) ?names ?s1 =
       (\<lparr>all_values = vs, all_remaining = 0, all_outcome = Some (Inr vs)\<rparr>,
        filter_click_then ty (Inr vs) s_end,
        map ItemSettled (map fst (arrival_order sched (fst (launch ?names ?s1)))) @ [BatchCompleted])"
    and len: "length vs = length ?names"
    and ents: "map entity_of vs = spec_batch_resolve remote (pokemonCache ?s1) (length (requests ?s1)) ?names"
    and req: "requests s_end = requests ?s1 @ spec_batch_requests (pokemonCache ?s1) ?names"
    by (rule batch_cases)
  have fc: "filter_click remote sched ty s =
      (Some \<lparr>all_values = vs, all_remaining = 0, all_outcome = Some (Inr vs)\<rparr>,
        filter_click_then ty (Inr vs) s_end,
        map ItemSettled (map fst (arrival_order sched (fst (launch ?names ?s1)))) @ [BatchCompleted])"
    using assms(1) by (simp add: filter_click_def Let_def pokemonNamesForType_take run)
  have e: "map entity_of vs = spec_batch_resolve remote (pokemonCache s) (Suc (length (requests s))) ?names"
    using ents by simp
  have l: "length ?names = 151" using assms(2) by simp
  have msg: "no_results_message ty \<noteq> type_error_message"
    by (simp add: no_results_message_def type_error_message_def)
  have then_eq: "filter_click_then ty (Inr vs) s_end =
      (if somes (map entity_of vs) = []
       then s_end\<lparr>pokemonContainer_innerHTML := [Paragraph (no_results_message ty)],
                  pokemonContainer_display := DisplayFlex\<rparr>
       else s_end\<lparr>pokemonContainer_innerHTML := map (\<lambda>p. Card (renderCard p)) (somes (map entity_of vs)),
                  pokemonContainer_display := DisplayFlex,
                  suggestionsContainer_display := DisplayNone\<rparr>)"
    by (simp add: filter_click_then_def Let_def displayPokemon_filtered filtered_empty_iff)
  show ?thesis
    unfolding Let_def fc prod.case
    using req l len msg by (simp add: then_eq e pokemonNamesForType_take)
qed

theorem filter_click_resolves_first_151_witness:
  "type_remote (length (requests initial_state)) (type_url ''electric'') =
     Inr (TypeData long_membership) \<and>
   151 < length long_membership \<and>
   (let names = take 151 long_membership;
        resolved = somes (spec_batch_resolve type_remote (pokemonCache initial_state)
                     (Suc (length (requests initial_state))) names)
    in case filter_click type_remote [] ''electric'' initial_state of
         (j, s', tr) \<Rightarrow>
           pokemonNamesForType long_membership = names \<and> length names = 151 \<and>
           map_option (\<lambda>a. length (all_values a)) j = Some 151 \<and>
           map_option (\<lambda>a. somes (map entity_of (all_values a))) j = Some resolved \<and>
           requests s' =
             requests initial_state @
               type_url ''electric'' # spec_batch_requests (pokemonCache initial_state) names \<and>
           pokemonContainer_innerHTML s' =
             (if resolved = [] then [Paragraph (no_results_message ''electric'')]
              else map (\<lambda>p. Card (renderCard p)) resolved) \<and>
           pokemonContainer_display s' = DisplayFlex \<and>
           no_results_message ''electric'' \<noteq> type_error_message)"
proof -
  have a: "type_remote (length (requests initial_state)) (type_url ''electric'') =
     Inr (TypeData long_membership)"
    by (simp add: type_remote_def)
  have b: "151 < length long_membership"
    by (simp add: long_membership_def)
  note c = filter_click_resolves_first_151 [where s = initial_state and remote = type_remote
      and ty = "''electric''" and members = long_membership and sched = "[]", OF a b]
  show ?thesis by (rule conjI [OF a conjI [OF b c]])
qed

section \<open>Empty suggestions\<close>

text \<open>
  C7, as stated, fails: after a search has shown its result, emptying the search
  input hides the suggestions container only; the results container stays visible.
  No request is issued.
\<close>

theorem empty_suggestions_leave_results_visible:
  "pokemonContainer_display
     (run demo_remote [Input ''pikachu'' [], Search, Input [] []] initial_state) = DisplayFlex \<and>
   requests (run demo_remote [Input ''pikachu'' [], Search, Input [] []] initial_state) =
     requests (run demo_remote [Input ''pikachu'' [], Search] initial_state)"
  by code_simp


text \<open>
  C7, amended. The empty query issues no request and starts no batch, and it
  empties and hides the suggestions container; so does a batch whose values hold no
  \<open>Pokemon\<close>. Everything else, the results container included, is left as it
  was.
\<close>

theorem empty_suggestions_hide_suggestions_only:
  "fetchSuggestions remote sched [] s =
     (None, s\<lparr>suggestionsContainer_innerHTML := [], suggestionsContainer_display := DisplayNone\<rparr>, []) \<and>
   (filter instanceof_Pokemon detailed = [] \<longrightarrow>
      fetchSuggestions_then (Inr detailed) s =
        s\<lparr>suggestionsContainer_innerHTML := [], suggestionsContainer_display := DisplayNone\<rparr>)"
  by (simp add: fetchSuggestions_def fetchSuggestions_then_def displaySuggestions_def)

theorem empty_suggestions_hide_suggestions_only_witness:
  "filter instanceof_Pokemon [Null] = [] \<and>
   fetchSuggestions_then (Inr [Null]) initial_state =
     initial_state\<lparr>suggestionsContainer_innerHTML := [], suggestionsContainer_display := DisplayNone\<rparr>"
  using empty_suggestions_hide_suggestions_only [of demo_remote "[]" initial_state "[Null]"]
  by simp

section \<open>Mutual exclusion of the containers\<close>

lemma filter_click_catch_frame [simp]:
  "suggestionsContainer_display (filter_click_catch ty e s) = suggestionsContainer_display s"
  "pokemonContainer_display (filter_click_catch ty e s) = DisplayFlex"
  by (cases "(ty, e, s)" rule: filter_click_catch.cases; simp)+

lemma filter_click_then_filtered:
  "filter_click_then ty (Inr vs) s =
      (if somes (map entity_of vs) = []
       then s\<lparr>pokemonContainer_innerHTML := [Paragraph (no_results_message ty)],
              pokemonContainer_display := DisplayFlex\<rparr>
       else s\<lparr>pokemonContainer_innerHTML := map (\<lambda>p. Card (renderCard p)) (somes (map entity_of vs)),
              pokemonContainer_display := DisplayFlex,
              suggestionsContainer_display := DisplayNone\<rparr>)"
  by (simp add: filter_click_then_def Let_def displayPokemon_filtered filtered_empty_iff)

lemma fetchSuggestions_exclusive:
  assumes "query = [] \<or> (\<exists>names. remote (length (requests s)) list_url = Inr (ListData names))"
  shows "exclusive (fst (snd (fetchSuggestions remote sched query s)))"
proof (cases "query = []")
  case True
  then show ?thesis by (simp add: fetchSuggestions_def exclusive_def)
next
  case False
  with assms obtain names where l: "remote (length (requests s)) list_url = Inr (ListData names)"
    by blast
  let ?s1 = "s\<lparr>requests := requests s @ [list_url]\<rparr>"
  obtain vs s_end where run: "Promise_all_fetchPokemon remote sched fetchSuggestions_then
        (matchingNames query names) ?s1 =
       (\<lparr>all_values = vs, all_remaining = 0, all_outcome = Some (Inr vs)\<rparr>,
        fetchSuggestions_then (Inr vs) s_end,
        map ItemSettled (map fst (arrival_order sched (fst (launch (matchingNames query names) ?s1)))) @
          [BatchCompleted])"
    by (rule batch_cases)
  have "fst (snd (fetchSuggestions remote sched query s)) = fetchSuggestions_then (Inr vs) s_end"
    using False l by (simp add: fetchSuggestions_def Let_def run)
  then show ?thesis
    by (simp add: fetchSuggestions_then_def displaySuggestions_filtered exclusive_def)
qed

lemma filter_click_exclusive: "exclusive (fst (snd (filter_click remote sched ty s)))"
proof -
  let ?s1 = "s\<lparr>searchInput_value := [], suggestionsContainer_innerHTML := [],
                 suggestionsContainer_display := DisplayNone,
                 requests := requests s @ [type_url ty]\<rparr>"
  show ?thesis
  proof (cases "remote (length (requests s)) (type_url ty)")
    case (Inl e)
    then show ?thesis by (simp add: filter_click_def Let_def exclusive_def)
  next
    case (Inr d)
    show ?thesis
    proof (cases "members_of d")
      case (Inl e)
      with Inr show ?thesis by (simp add: filter_click_def Let_def exclusive_def)
    next
      case members: (Inr members)
      obtain vs s_end where run: "Promise_all_fetchPokemon remote sched (filter_click_then ty)
            (pokemonNamesForType members) ?s1 =
           (\<lparr>all_values = vs, all_remaining = 0, all_outcome = Some (Inr vs)\<rparr>,
            filter_click_then ty (Inr vs) s_end,
            map ItemSettled (map fst (arrival_order sched (fst (launch (pokemonNamesForType members) ?s1)))) @
              [BatchCompleted])"
        and fr: "suggestionsContainer_display s_end = suggestionsContainer_display ?s1"
        by (rule batch_cases)
      have "fst (snd (filter_click remote sched ty s)) = filter_click_then ty (Inr vs) s_end"
        using Inr members by (simp add: filter_click_def Let_def run)
      then show ?thesis
        using fr by (simp add: filter_click_then_filtered exclusive_def)
    qed
  qed
qed

lemma searchPokemons_finish_exclusive:
  assumes "exclusive s"
  shows "exclusive (snd (searchPokemons_finish remote t s))"
proof -
  obtain v s1 where st: "settle remote t s = (Inr v, s1)"
    and fr: "pokemonContainer_display s1 = pokemonContainer_display s"
      "suggestionsContainer_display s1 = suggestionsContainer_display s"
    by (rule settle_cases)
  show ?thesis
    using assms fr
    by (cases v) (simp_all add: searchPokemons_finish_def st displayPokemon_def renderCard_def exclusive_def)
qed

lemma searchPokemons_start_exclusive:
  assumes "exclusive s"
  shows "exclusive (snd (searchPokemons_start q s))"
  using assms
  by (simp add: searchPokemons_start_def fetchPokemon_start_def Let_def exclusive_def)

lemma searchPokemons_exclusive:
  assumes "exclusive s"
  shows "exclusive (snd (searchPokemons remote q s))"
proof (cases "searchPokemons_start q s")
  case (Pair ot s1)
  with searchPokemons_start_exclusive [OF assms, of q] have e: "exclusive s1" by simp
  show ?thesis
    using Pair e by (cases ot) (simp_all add: searchPokemons_def searchPokemons_finish_exclusive)
qed

lemma step_exclusive:
  assumes "exclusive s" and "listing_answers remote"
  shows "exclusive (step remote a s)"
proof (cases a)
  case (Input v sched)
  from assms(2) have "\<exists>names. remote (length (requests (s\<lparr>searchInput_value := v\<rparr>))) list_url =
      Inr (ListData names)"
    by (simp add: listing_answers_def)
  then show ?thesis
    using Input by (simp add: fetchSuggestions_exclusive)
next
  case Search
  then show ?thesis using assms(1) by (simp add: searchPokemons_exclusive)
next
  case Refresh
  then show ?thesis by (simp add: resetSearch_def exclusive_def)
next
  case (FilterClick ty sched)
  then show ?thesis by (simp add: filter_click_exclusive)
next
  case (SuggestionClick i)
  show ?thesis
  proof (cases "i < length (suggestionsContainer_innerHTML s)")
    case False
    then show ?thesis using SuggestionClick assms(1) by simp
  next
    case True
    show ?thesis
    proof (cases "suggestionsContainer_innerHTML s ! i")
      case (SuggestionCard c p)
      obtain ot s1 where st: "searchPokemons_start (poke_name p) (s\<lparr>searchInput_value := poke_name p\<rparr>) = (ot, s1)"
        by (cases "searchPokemons_start (poke_name p) (s\<lparr>searchInput_value := poke_name p\<rparr>)")
      let ?s2 = "s1\<lparr>suggestionsContainer_innerHTML := [], suggestionsContainer_display := DisplayNone\<rparr>"
      have e2: "exclusive ?s2" by (simp add: exclusive_def)
      show ?thesis
        using True SuggestionCard SuggestionClick st e2
        by (cases ot) (simp_all add: Let_def searchPokemons_finish_exclusive)
    qed (use True SuggestionClick assms(1) in simp_all)
  qed
qed

lemma run_exclusive:
  assumes "exclusive s" and "listing_answers remote"
  shows "exclusive (run remote as s)"
  using assms by (induction as arbitrary: s) (simp_all add: step_exclusive)

text \<open>
  C1. The two containers can be visible together: after a search has shown its
  result, typing while the listing does not answer runs the \<open>catch\<close> block of
  \<open>fetchSuggestions\<close>, which shows the suggestions container and leaves the
  results container visible. It is the one path that does so: while the listing
  answers, no sequence of actions makes both containers visible (lemma
  \<open>run_exclusive\<close>).
\<close>

theorem both_surfaces_visible_after_listing_failure:
  "pokemonContainer_display
     (run listing_down_remote [Input ''pikachu'' [], Search, Input ''pika'' []] initial_state) = DisplayFlex \<and>
   suggestionsContainer_display
     (run listing_down_remote [Input ''pikachu'' [], Search, Input ''pika'' []] initial_state) = DisplayFlex"
  by code_simp

end
